theory Spec2Isabelle
  imports
    Complex_Main
    "HOL-Library.Char_ord"
    "HOL-Library.List_Lexorder"
    "HOL-Library.Product_Lexorder"
begin

section \<open>Strings and arrays of the host language\<close>

text \<open>
  A JavaScript string is a sequence of UTF-16 code units. The model uses \<^typ>\<open>string\<close>
  and reads every \<^typ>\<open>char\<close> as one code unit in the range 0..255 (Latin-1), so that
  \<open>length\<close> counts what the source's \<open>.length\<close> counts. Numbers are \<^typ>\<open>int\<close> where the
  source only ever holds integers (limits, match counts) and \<^typ>\<open>real\<close> for relevance
  scores; \<open>undefined\<close> is \<open>None\<close>.
\<close>

text \<open>\<open>String.prototype.toLowerCase\<close> on code units below 256.\<close>

definition lowerChar :: "char \<Rightarrow> char" where
  "lowerChar c =
     (let n = of_char c :: nat in
      if (65 \<le> n \<and> n \<le> 90) \<or> (192 \<le> n \<and> n \<le> 222 \<and> n \<noteq> 215)
      then char_of (n + 32) else c)"

definition toLowerCase :: "string \<Rightarrow> string" where
  "toLowerCase s = map lowerChar s"

text \<open>\<open>String.prototype.startsWith\<close> and \<open>String.prototype.includes\<close>.\<close>

definition startsWith :: "string \<Rightarrow> string \<Rightarrow> bool" where
  "startsWith s p = (take (length p) s = p)"

fun includes_str :: "string \<Rightarrow> string \<Rightarrow> bool" where
  "includes_str [] p = (p = [])"
| "includes_str (c # cs) p = (startsWith (c # cs) p \<or> includes_str cs p)"

text \<open>
  \<open>Array.prototype.slice(0, k)\<close> for an integer \<open>k\<close>: a negative end counts from the end
  of the array.
\<close>

definition slice0 :: "int \<Rightarrow> 'a list \<Rightarrow> 'a list" where
  "slice0 k xs = (if k < 0 then take (nat (int (length xs) + k)) xs else take (nat k) xs)"

text \<open>
  Modelled from the spec: \<open>Array.prototype.sort\<close> is the host runtime's and not code of
  the repository. The spec (section 5) has ties broken by a stable sort; the model is the
  stable insertion sort driven by the sign of the comparator. On every input on which the
  comparator is a consistent ordering, any stable comparison sort returns this list.
\<close>

fun insertBy :: "('a \<Rightarrow> 'a \<Rightarrow> real) \<Rightarrow> 'a \<Rightarrow> 'a list \<Rightarrow> 'a list" where
  "insertBy cmp x [] = [x]"
| "insertBy cmp x (y # ys) = (if cmp x y \<le> 0 then x # y # ys else y # insertBy cmp x ys)"

definition array_sort :: "('a \<Rightarrow> 'a \<Rightarrow> real) \<Rightarrow> 'a list \<Rightarrow> 'a list" where
  "array_sort cmp xs = foldr (insertBy cmp) xs []"

text \<open>\<open>Math.ceil(l / n)\<close> for an integer \<open>l\<close> and an array length \<open>n\<close>.\<close>

definition ceilDiv :: "int \<Rightarrow> nat \<Rightarrow> int" where
  "ceilDiv l n = - ((- l) div int n)"

section \<open>Data model\<close>

text \<open>A failed promise: \<open>new Error(message)\<close>.\<close>

datatype error = Error string

text \<open>
  A search result object. Every source fills \<open>title\<close> and \<open>source\<close>; the other fields are
  \<open>None\<close> where the source leaves them undefined. Fields no modelled function reads
  (identifiers, timestamps, file sizes) are left out.
\<close>

record item =
  title :: string
  content :: "string option"
  snippet :: "string option"
  url :: "string option"
  path :: "string option"
  score :: "real option"
  matches :: "int option"
  source :: string

text \<open>A row of the table \<open>data_entries\<close> (src/database/init.js): TEXT columns, \<open>tags\<close> and
  \<open>category\<close> nullable.\<close>

record row =
  row_id :: nat
  row_title :: string
  row_content :: string
  row_category :: "string option"
  row_tags :: "string option"
  updated_at :: string

text \<open>A row after \<open>parseDataEntry\<close>: the tags column parsed into an array.\<close>

record entry =
  entry_row :: row
  entry_tags :: "string list"

text \<open>A directory entry of the file system as \<open>fs.readdir\<close>, \<open>fs.readFile\<close> and \<open>fs.stat\<close>
  show it: a file with its name, its text (\<open>None\<close> when reading fails) and whether \<open>stat\<close>
  succeeds; a directory with its name and listing (\<open>None\<close> when it cannot be listed);
  anything else.\<close>

datatype fsentry =
  File string "string option" bool
| Directory string "fsentry list option"
| Special string

text \<open>
  The collaborators of the search service: the database, the file system and the host
  functions whose code is not in the repository, each taken as a parameter.
  \<^item> \<open>table\<close>: the rows of \<open>data_entries\<close> in storage order, \<open>None\<close> when the database
    rejects the query;
  \<^item> \<open>sql_like pattern text\<close>: the engine's \<open>LIKE\<close> operator;
  \<^item> \<open>parseTags\<close>: \<open>JSON.parse\<close> on a tags column, \<open>None\<close> when it throws;
  \<^item> \<open>fuseDistance query field\<close>: the approximate string distance of Fuse.js for one
    field, \<open>None\<close> when the field has no match of at least two characters;
  \<^item> \<open>readdir\<close>: the listing of the directory tree under a path;
  \<^item> \<open>regexCount pattern text\<close>: the number of matches of \<open>new RegExp(pattern, 'g')\<close>
    in the text, \<open>None\<close> when the pattern is not a regular expression;
  \<^item> \<open>encodeURIComponent\<close>: \<open>None\<close> when it throws \<open>URIError\<close>.
\<close>

record world =
  table :: "row list option"
  sql_like :: "string \<Rightarrow> string \<Rightarrow> bool"
  parseTags :: "string \<Rightarrow> string list option"
  fuseDistance :: "string \<Rightarrow> string \<Rightarrow> real option"
  readdir :: "string \<Rightarrow> fsentry list option"
  regexCount :: "string \<Rightarrow> string \<Rightarrow> nat option"
  encodeURIComponent :: "string \<Rightarrow> string option"

section \<open>The record store (src/database/queries.js)\<close>

text \<open>\<open>parseDataEntry\<close>: \<open>JSON.parse(row.tags || '[]')\<close>, an empty array when it throws.\<close>

definition parseDataEntry :: "world \<Rightarrow> row \<Rightarrow> entry" where
  "parseDataEntry w r =
     \<lparr>entry_row = r,
      entry_tags =
        (case row_tags r of
           None \<Rightarrow> []
         | Some t \<Rightarrow>
             if t = [] then []
             else (case parseTags w t of None \<Rightarrow> [] | Some ts \<Rightarrow> ts))\<rparr>"

text \<open>The SQL the queries are built from: \<open>WHERE\<close> is a filter, \<open>ORDER BY k DESC\<close> a
  descending sort that leaves rows with equal keys in storage order, \<open>LIMIT l\<close> a prefix
  (every row when \<open>l\<close> is negative). A comparison with \<open>NULL\<close> is not true.\<close>

definition order_by_desc :: "('a \<Rightarrow> 'k::linorder) \<Rightarrow> 'a list \<Rightarrow> 'a list" where
  "order_by_desc k rows = rev (sort_key k (rev rows))"

definition sql_limit :: "int \<Rightarrow> 'a list \<Rightarrow> 'a list" where
  "sql_limit l rows = (if l < 0 then rows else take (nat l) rows)"

definition category_is :: "string option \<Rightarrow> row \<Rightarrow> bool" where
  "category_is category r =
     (case category of
        None \<Rightarrow> True
      | Some c \<Rightarrow> if c = [] then True else row_category r = Some c)"

definition like_tags :: "world \<Rightarrow> string \<Rightarrow> row \<Rightarrow> bool" where
  "like_tags w pat r = (case row_tags r of None \<Rightarrow> False | Some t \<Rightarrow> sql_like w pat t)"

definition like_any :: "world \<Rightarrow> string \<Rightarrow> row \<Rightarrow> bool" where
  "like_any w pat r =
     (sql_like w pat (row_title r) \<or> sql_like w pat (row_content r) \<or> like_tags w pat r)"

definition relevance_score :: "world \<Rightarrow> string \<Rightarrow> row \<Rightarrow> nat" where
  "relevance_score w pat r =
     (if sql_like w pat (row_title r) then 3
      else if sql_like w pat (row_content r) then 2
      else if like_tags w pat r then 1
      else 0)"

definition searchPattern :: "string \<Rightarrow> string" where
  "searchPattern query = ''%'' @ query @ ''%''"

text \<open>
  The \<open>LIKE\<close> operator as the SQLite engine evaluates it: in the pattern \<open>%\<close> stands for
  any run of characters and \<open>_\<close> for any one character; every other character stands for
  itself, the letters A to Z without regard to case. The queries pass \<open>'%' + query + '%'\<close>
  as the pattern and do not escape the query.
\<close>

definition lowerAscii :: "char \<Rightarrow> char" where
  "lowerAscii c =
     (let n = of_char c :: nat in if 65 \<le> n \<and> n \<le> 90 then char_of (n + 32) else c)"


fun likeMatch :: "string \<Rightarrow> string \<Rightarrow> bool" where
  "likeMatch [] t = (t = [])"
| "likeMatch (p # ps) [] = (p = CHR ''%'' \<and> likeMatch ps [])"
| "likeMatch (p # ps) (c # cs) =
     (if p = CHR ''%'' then likeMatch ps (c # cs) \<or> likeMatch (p # ps) cs
      else if p = CHR ''_'' then likeMatch ps cs
      else lowerAscii p = lowerAscii c \<and> likeMatch ps cs)"



text \<open>\<open>getDataFromDB({ category })\<close>: no search filter and no pagination.\<close>

definition getDataFromDB :: "world \<Rightarrow> string option \<Rightarrow> entry list option" where
  "getDataFromDB w category =
     (case table w of
        None \<Rightarrow> None
      | Some rows \<Rightarrow>
          Some (map (parseDataEntry w)
                  (order_by_desc updated_at (filter (category_is category) rows))))"

text \<open>\<open>searchDataInDB(query, { limit = 20, category, fuzzy = false })\<close>.\<close>

definition searchDataInDB ::
  "world \<Rightarrow> string \<Rightarrow> int option \<Rightarrow> string option \<Rightarrow> bool option \<Rightarrow> entry list option" where
  "searchDataInDB w query limit category fuzzy =
     (let l = (case limit of None \<Rightarrow> 20 | Some k \<Rightarrow> k);
          pat = searchPattern query
      in case table w of
           None \<Rightarrow> None
         | Some rows \<Rightarrow>
             let hits = filter (category_is category) (filter (like_any w pat) rows)
             in if fuzzy = Some True
                then Some (map (parseDataEntry w)
                       (sql_limit l
                          (order_by_desc (\<lambda>r. (relevance_score w pat r, updated_at r)) hits)))
                else Some (map (parseDataEntry w)
                       (sql_limit l (order_by_desc updated_at hits))))"

section \<open>The relevance index\<close>

text \<open>
  Modelled from the spec: \<open>Fuse.search\<close> of the library Fuse.js, which is not under src/.
  Section 4.1: a distance per searchable field (title, content, every tag); the record's
  score is the least distance over its fields; a record is included when its score is at
  most the threshold; the output is ascending by score, ties in corpus order.
\<close>

fun optMin :: "real option \<Rightarrow> real option \<Rightarrow> real option" where
  "optMin None b = b"
| "optMin (Some x) None = Some x"
| "optMin (Some x) (Some y) = Some (min x y)"

definition fuseScore :: "world \<Rightarrow> string \<Rightarrow> entry \<Rightarrow> real option" where
  "fuseScore w query e =
     foldr optMin
       (map (fuseDistance w query)
          (row_title (entry_row e) # row_content (entry_row e) # entry_tags e))
       None"

definition fuseScored :: "world \<Rightarrow> string \<Rightarrow> entry list \<Rightarrow> (entry \<times> real) list" where
  "fuseScored w query corpus =
     concat (map (\<lambda>e. case fuseScore w query e of None \<Rightarrow> [] | Some s \<Rightarrow> [(e, s)]) corpus)"

definition fuseSearch :: "world \<Rightarrow> real \<Rightarrow> string \<Rightarrow> entry list \<Rightarrow> (entry \<times> real) list" where
  "fuseSearch w threshold query corpus =
     sort_key snd (filter (\<lambda>p. snd p \<le> threshold) (fuseScored w query corpus))"

section \<open>The search service (src/services/searchService.js)\<close>

record web_options =
  web_limit :: "int option"

record local_options =
  local_limit :: "int option"
  fuzzy :: "bool option"
  threshold :: "real option"
  suggestionsOnly :: "bool option"
  category :: "string option"

record file_options =
  file_limit :: "int option"
  extensions :: "string list option"
  includeContent :: "bool option"

record advanced_options =
  adv_limit :: "int option"
  adv_path :: "string option"

text \<open>\<open>searchLocal\<close> returns an array of titles for autocompletion and an array of result
  objects otherwise.\<close>

datatype local_result = Suggestions "string list" | Results "item list"

definition uuml :: string where
  "uuml = [char_of (252 :: nat)]"

definition dquote :: string where
  "dquote = [char_of (34 :: nat)]"

definition searchWeb :: "world \<Rightarrow> string \<Rightarrow> web_options \<Rightarrow> error + item list" where
  "searchWeb w query options =
     (let limit = (case web_limit options of None \<Rightarrow> 10 | Some k \<Rightarrow> k)
      in case encodeURIComponent w query of
           None \<Rightarrow> Inl (Error (''Web-Suche nicht verf'' @ uuml @ ''gbar''))
         | Some enc \<Rightarrow>
             Inr (slice0 limit
               [\<lparr>title = ''Suchergebnisse f'' @ uuml @ ''r '' @ dquote @ query @ dquote,
                 content = None,
                 snippet = Some (''Dies ist ein simuliertes Suchergebnis f'' @ uuml
                   @ ''r die Anfrage '' @ dquote @ query @ dquote
                   @ ''. In einer echten Implementierung w'' @ uuml
                   @ ''rde hier eine Search API verwendet werden.''),
                 url = Some (''https://example.com/search?q='' @ enc),
                 path = None, score = None, matches = None, source = ''Web''\<rparr>,
                \<lparr>title = query @ '' - Wikipedia'',
                 content = None,
                 snippet = Some (''Wikipedia-Artikel '' @ uuml @ ''ber '' @ query
                   @ ''. Weitere Informationen finden Sie in der Online-Enzyklop''
                   @ [char_of (228 :: nat)] @ ''die.''),
                 url = Some (''https://de.wikipedia.org/wiki/'' @ enc),
                 path = None, score = None, matches = None, source = ''Wikipedia''\<rparr>]))"

definition localItem :: "entry \<Rightarrow> real option \<Rightarrow> item" where
  "localItem e s =
     \<lparr>title = row_title (entry_row e), content = Some (row_content (entry_row e)),
      snippet = None, url = None, path = None, score = s, matches = None,
      source = ''Local Database''\<rparr>"

definition searchLocal :: "world \<Rightarrow> string \<Rightarrow> local_options \<Rightarrow> error + local_result" where
  "searchLocal w query options =
     (let limit = (case local_limit options of None \<Rightarrow> 20 | Some k \<Rightarrow> k);
          fz = (case fuzzy options of None \<Rightarrow> True | Some b \<Rightarrow> b);
          th = (case threshold options of None \<Rightarrow> 6 / 10 | Some t \<Rightarrow> t);
          failed = Inl (Error ''Lokale Suche fehlgeschlagen'')
      in if suggestionsOnly options = Some True
         then (case searchDataInDB w query (Some 5) None (Some True) of
                 None \<Rightarrow> failed
               | Some results \<Rightarrow> Inr (Suggestions (map (\<lambda>e. row_title (entry_row e)) results)))
         else if fz
         then (case getDataFromDB w (category options) of
                 None \<Rightarrow> failed
               | Some allData \<Rightarrow>
                   Inr (Results (slice0 limit
                     (map (\<lambda>p. localItem (fst p) (Some (snd p)))
                        (fuseSearch w th query allData)))))
         else (case searchDataInDB w query (Some limit) (category options) None of
                 None \<Rightarrow> failed
               | Some results \<Rightarrow> Inr (Results (map (\<lambda>e. localItem e None) results))))"

subsection \<open>File system search\<close>

text \<open>\<open>path.extname\<close> of a file name: from the last dot, empty when there is none or when
  the name starts with it. \<open>path.join\<close> of a directory and a name; the result is only
  carried in the field \<open>path\<close>, and the normalisation of the directory part is not
  modelled.\<close>

definition extname :: "string \<Rightarrow> string" where
  "extname name =
     (let k = length (takeWhile (\<lambda>c. c \<noteq> CHR ''.'') (rev name))
      in if k = length name \<or> Suc k = length name then []
         else drop (length name - Suc k) name)"

definition pathJoin :: "string \<Rightarrow> string \<Rightarrow> string" where
  "pathJoin dir name = (if dir = ''.'' then name else dir @ ''/'' @ name)"

definition textExtensions :: "string list" where
  "textExtensions = [''.txt'', ''.md'', ''.js'', ''.json'', ''.csv'']"

definition unreadable :: string where
  "unreadable = ''[Datei konnte nicht gelesen werden]''"

definition fileSnippet :: "string \<Rightarrow> string" where
  "fileSnippet c = (if length c > 200 then take 200 c @ ''...'' else c)"

definition fileItem :: "string \<Rightarrow> string \<Rightarrow> nat \<Rightarrow> string \<Rightarrow> item" where
  "fileItem name fullPath m c =
     \<lparr>title = name, content = None, snippet = Some (fileSnippet c), url = None,
      path = Some fullPath, score = None, matches = Some (int m), source = ''File System''\<rparr>"

text \<open>The text and the match count of a candidate file: read and counted for the text
  extensions, the placeholder and no match when reading or the pattern fails.\<close>

definition readMatches :: "world \<Rightarrow> string \<Rightarrow> bool \<Rightarrow> string \<Rightarrow> string option \<Rightarrow> string \<times> nat" where
  "readMatches w query inc ext text =
     (if inc \<and> ext \<in> set textExtensions
      then (case text of
              None \<Rightarrow> (unreadable, 0)
            | Some c \<Rightarrow>
                (case regexCount w (toLowerCase query) (toLowerCase c) of
                   None \<Rightarrow> (unreadable, 0)
                 | Some n \<Rightarrow> (c, n)))
      else ([], 0))"

text \<open>
  The loop of \<open>searchInDirectory\<close> over the listing of one directory, with the shared
  array \<open>results\<close> passed through. A directory that cannot be listed leaves the results as
  they are; a failing \<open>stat\<close> leaves the loop of its directory; after every entry the loop
  ends once \<open>limit\<close> results are there.
\<close>

fun searchInDirectory ::
  "world \<Rightarrow> string \<Rightarrow> int \<Rightarrow> string list \<Rightarrow> bool \<Rightarrow> string \<Rightarrow> fsentry list \<Rightarrow> item list
     \<Rightarrow> item list" where
  "searchInDirectory w query limit exts inc dir [] results = results"
| "searchInDirectory w query limit exts inc dir (Directory name sub # es) results =
     (let results' =
        (if \<not> startsWith name ''.''
         then (case sub of
                 None \<Rightarrow> results
               | Some sub_es \<Rightarrow>
                   searchInDirectory w query limit exts inc (pathJoin dir name) sub_es results)
         else results)
      in if int (length results') \<ge> limit then results'
         else searchInDirectory w query limit exts inc dir es results')"
| "searchInDirectory w query limit exts inc dir (Special name # es) results =
     (if int (length results) \<ge> limit then results
      else searchInDirectory w query limit exts inc dir es results)"
| "searchInDirectory w query limit exts inc dir (File name text stat_ok # es) results =
     (let ext = extname name;
          nameMatch = includes_str (toLowerCase name) (toLowerCase query)
      in if nameMatch \<or> exts = [] \<or> ext \<in> set exts
         then (let cm = readMatches w query inc ext text
               in if nameMatch \<or> snd cm > 0
                  then (if stat_ok
                        then (let results' =
                                results @ [fileItem name (pathJoin dir name) (snd cm) (fst cm)]
                              in if int (length results') \<ge> limit then results'
                                 else searchInDirectory w query limit exts inc dir es results')
                        else results)
                  else if int (length results) \<ge> limit then results
                  else searchInDirectory w query limit exts inc dir es results)
         else if int (length results) \<ge> limit then results
         else searchInDirectory w query limit exts inc dir es results)"

text \<open>The relevance the file search sorts by: \<open>NaN\<close> (here \<open>None\<close>) without a count.\<close>

definition relevance :: "string \<Rightarrow> item \<Rightarrow> int option" where
  "relevance query a =
     map_option
       (\<lambda>m. m + (if includes_str (toLowerCase (title a)) (toLowerCase query) then 10 else 0))
       (matches a)"

definition filesCompare :: "string \<Rightarrow> item \<Rightarrow> item \<Rightarrow> real" where
  "filesCompare query a b =
     (case (relevance query a, relevance query b) of
        (Some ra, Some rb) \<Rightarrow> real_of_int (rb - ra)
      | _ \<Rightarrow> 0)"

definition searchFiles :: "world \<Rightarrow> string \<Rightarrow> string \<Rightarrow> file_options \<Rightarrow> error + item list" where
  "searchFiles w query searchPath options =
     (let limit = (case file_limit options of None \<Rightarrow> 50 | Some k \<Rightarrow> k);
          exts = (case extensions options of None \<Rightarrow> textExtensions | Some xs \<Rightarrow> xs);
          inc = (case includeContent options of None \<Rightarrow> True | Some b \<Rightarrow> b);
          results =
            (case readdir w searchPath of
               None \<Rightarrow> []
             | Some es \<Rightarrow> searchInDirectory w query limit exts inc searchPath es [])
      in Inr (slice0 limit (array_sort (filesCompare query) results)))"

subsection \<open>Aggregated search\<close>

text \<open>A settled search promise: the array of a source that succeeded, or the object
  \<open>{ error, results: [] }\<close> its \<open>catch\<close> handler puts in place of a failure.\<close>

datatype settled = Fulfilled "item list" | Recovered string "item list"

definition catchWith :: "string \<Rightarrow> error + item list \<Rightarrow> settled" where
  "catchWith label p = (case p of Inl e \<Rightarrow> Recovered label [] | Inr rs \<Rightarrow> Fulfilled rs)"

text \<open>The local search called without \<open>suggestionsOnly\<close> returns result objects; the
  other shape cannot reach the aggregator.\<close>

definition localResults :: "error + local_result \<Rightarrow> error + item list" where
  "localResults p =
     (case p of
        Inl e \<Rightarrow> Inl e
      | Inr (Results rs) \<Rightarrow> Inr rs
      | Inr (Suggestions ss) \<Rightarrow> Inr [])"

definition combineResults :: "settled list \<Rightarrow> item list" where
  "combineResults searchResults =
     concat (map (\<lambda>r. case r of Fulfilled rs \<Rightarrow> rs | Recovered e rs \<Rightarrow> rs) searchResults)"

definition truthyString :: "string option \<Rightarrow> bool" where
  "truthyString s = (case s of None \<Rightarrow> False | Some t \<Rightarrow> t \<noteq> [])"

definition isDuplicate :: "item \<Rightarrow> item \<Rightarrow> bool" where
  "isDuplicate existing it =
     (title existing = title it \<or>
      (truthyString (content existing) \<and> truthyString (content it)
         \<and> content existing = content it))"

definition pushUnique :: "item \<Rightarrow> item list \<Rightarrow> item list" where
  "pushUnique it uniqueResults =
     (if list_ex (\<lambda>existing. isDuplicate existing it) uniqueResults then uniqueResults
      else uniqueResults @ [it])"

definition removeDuplicates :: "item list \<Rightarrow> item list" where
  "removeDuplicates combinedResults = fold pushUnique combinedResults []"

text \<open>The comparator of the final sort. A number is truthy when it is defined and not 0.\<close>

definition truthyScore :: "real option \<Rightarrow> bool" where
  "truthyScore s = (case s of None \<Rightarrow> False | Some x \<Rightarrow> x \<noteq> 0)"

definition truthyCount :: "int option \<Rightarrow> bool" where
  "truthyCount m = (case m of None \<Rightarrow> False | Some k \<Rightarrow> k \<noteq> 0)"

definition advancedCompare :: "item \<Rightarrow> item \<Rightarrow> real" where
  "advancedCompare a b =
     (if truthyScore (score a) \<and> truthyScore (score b)
      then the (score a) - the (score b)
      else if truthyCount (matches a) \<and> truthyCount (matches b)
      then real_of_int (the (matches b) - the (matches a))
      else 0)"

definition searchPromises ::
  "world \<Rightarrow> string \<Rightarrow> string list \<Rightarrow> int \<Rightarrow> string option \<Rightarrow> settled list" where
  "searchPromises w query sources limit p =
     (let share = ceilDiv limit (length sources) in
      (if ''web'' \<in> set sources
       then [catchWith ''Web search failed''
               (searchWeb w query \<lparr>web_limit = Some share\<rparr>)]
       else [])
      @ (if ''local'' \<in> set sources
         then [catchWith ''Local search failed''
                 (localResults (searchLocal w query
                    \<lparr>local_limit = Some share, fuzzy = None, threshold = None,
                     suggestionsOnly = None, category = None\<rparr>))]
         else [])
      @ (if ''files'' \<in> set sources
         then [catchWith ''File search failed''
                 (searchFiles w query
                    (case p of None \<Rightarrow> ''.'' | Some d \<Rightarrow> if d = [] then ''.'' else d)
                    \<lparr>file_limit = Some share, extensions = None, includeContent = None\<rparr>)]
         else []))"

text \<open>The defaults of the parameters: \<open>sources = ['local', 'files']\<close> and
  \<open>limit = 50\<close>.\<close>

definition sourcesOf :: "string list option \<Rightarrow> string list" where
  "sourcesOf sourcesArg = (case sourcesArg of None \<Rightarrow> [''local'', ''files''] | Some s \<Rightarrow> s)"

definition limitOf :: "advanced_options \<Rightarrow> int" where
  "limitOf options = (case adv_limit options of None \<Rightarrow> 50 | Some k \<Rightarrow> k)"

text \<open>The array \<open>uniqueResults\<close> as it stands before the final sort.\<close>

definition uniqueResults ::
  "world \<Rightarrow> string \<Rightarrow> string list option \<Rightarrow> advanced_options \<Rightarrow> item list" where
  "uniqueResults w query sourcesArg options =
     removeDuplicates
       (combineResults
          (searchPromises w query (sourcesOf sourcesArg) (limitOf options) (adv_path options)))"

text \<open>The array \<open>combinedResults\<close> the deduplication starts from.\<close>

definition combinedResults ::
  "world \<Rightarrow> string \<Rightarrow> string list option \<Rightarrow> advanced_options \<Rightarrow> item list" where
  "combinedResults w query sourcesArg options =
     combineResults
       (searchPromises w query (sourcesOf sourcesArg) (limitOf options) (adv_path options))"

text \<open>Every promise \<open>searchAdvanced\<close> awaits carries its own \<open>catch\<close> handler, and nothing
  else in its \<open>try\<close> block throws on arguments of these types: its own \<open>catch\<close>, which
  would raise \<open>Erweiterte Suche fehlgeschlagen\<close>, is never entered.\<close>

definition searchAdvanced ::
  "world \<Rightarrow> string \<Rightarrow> string list option \<Rightarrow> advanced_options \<Rightarrow> error + item list" where
  "searchAdvanced w query sourcesArg options =
     Inr (slice0 (limitOf options)
       (array_sort advancedCompare (uniqueResults w query sourcesArg options)))"

text \<open>A source failed when its promise settled through the \<open>catch\<close> handler.\<close>

definition sourceFailed :: "settled \<Rightarrow> bool" where
  "sourceFailed r = (case r of Fulfilled rs \<Rightarrow> False | Recovered e rs \<Rightarrow> True)"

section \<open>The suggestions route (routes/search.js)\<close>

text \<open>The handler of \<open>GET /search/suggestions\<close>, with the calls it makes into the search
  service recorded beside its response. \<open>q\<close> is \<open>None\<close> when the request has no such
  parameter.\<close>

datatype call = SearchLocalCall string local_options

datatype response = SuggestionsJson local_result | ServerError string

definition suggestionOptions :: local_options where
  "suggestionOptions =
     \<lparr>local_limit = Some 5, fuzzy = Some True, threshold = None,
      suggestionsOnly = Some True, category = None\<rparr>"

definition suggestionsRoute :: "world \<Rightarrow> string option \<Rightarrow> response \<times> call list" where
  "suggestionsRoute w q =
     (case q of
        None \<Rightarrow> (SuggestionsJson (Suggestions []), [])
      | Some s \<Rightarrow>
          if s = [] \<or> length s < 2 then (SuggestionsJson (Suggestions []), [])
          else (case searchLocal w s suggestionOptions of
                  Inr suggestions \<Rightarrow>
                    (SuggestionsJson suggestions, [SearchLocalCall s suggestionOptions])
                | Inl e \<Rightarrow>
                    (ServerError (''Vorschl'' @ [char_of (228 :: nat)]
                       @ ''ge konnten nicht geladen werden''),
                     [SearchLocalCall s suggestionOptions])))"

section \<open>The tiered rate limiter (middleware/rateLimiter.js)\<close>

text \<open>The four limiters and their constants \<open>points\<close>, \<open>duration\<close> and \<open>blockDuration\<close>, in
  seconds, as the middleware constructs them.\<close>

datatype tier = API | Search | DataMutation | Import

record tier_config =
  capacity :: nat
  windowDuration :: nat
  blockDuration :: nat

fun tierConfig :: "tier \<Rightarrow> tier_config" where
  "tierConfig API = \<lparr>capacity = 100, windowDuration = 60, blockDuration = 60\<rparr>"
| "tierConfig Search = \<lparr>capacity = 30, windowDuration = 60, blockDuration = 120\<rparr>"
| "tierConfig DataMutation = \<lparr>capacity = 10, windowDuration = 60, blockDuration = 300\<rparr>"
| "tierConfig Import = \<lparr>capacity = 3, windowDuration = 3600, blockDuration = 3600\<rparr>"

record counter =
  consumed :: nat
  windowStart :: nat
  blockedUntil :: "nat option"

text \<open>The decision of one consumption: the points that remain, or the time to wait. (The
  spec's \<open>resetAt\<close> is not defined by it and is left out.)\<close>

datatype decision = Allowed nat | Rejected nat

type_synonym limiter = "tier \<times> string \<Rightarrow> counter option"

text \<open>
  Modelled from the spec: \<open>consume\<close> of the library rate-limiter-flexible, which is not
  under src/. Section 4.5: a window that has elapsed is reset first; a counter that is
  blocked rejects with the time left; otherwise \<open>consumed\<close> is incremented, allowed up to
  the capacity, and past it the counter is blocked for \<open>blockDuration\<close> and rejects. A
  counter is created on the first consumption of its tier and key.
\<close>

definition resetWindow :: "tier_config \<Rightarrow> nat \<Rightarrow> counter \<Rightarrow> counter" where
  "resetWindow cfg now c =
     (if windowStart c + windowDuration cfg \<le> now
      then c\<lparr>consumed := 0, windowStart := now\<rparr> else c)"

definition consumeCounter :: "tier_config \<Rightarrow> nat \<Rightarrow> counter \<Rightarrow> decision \<times> counter" where
  "consumeCounter cfg now c0 =
     (let c = resetWindow cfg now c0;
          blocked = (case blockedUntil c of None \<Rightarrow> False | Some b \<Rightarrow> now < b)
      in if blocked then (Rejected (the (blockedUntil c) - now), c)
         else if consumed c + 1 \<le> capacity cfg
         then (Allowed (capacity cfg - (consumed c + 1)), c\<lparr>consumed := consumed c + 1\<rparr>)
         else (Rejected (blockDuration cfg),
               c\<lparr>consumed := consumed c + 1, blockedUntil := Some (now + blockDuration cfg)\<rparr>))"

definition Consume :: "limiter \<Rightarrow> tier \<Rightarrow> string \<Rightarrow> nat \<Rightarrow> decision \<times> limiter" where
  "Consume L t key now =
     (let c0 = (case L (t, key) of
                  None \<Rightarrow> \<lparr>consumed = 0, windowStart = now, blockedUntil = None\<rparr>
                | Some c \<Rightarrow> c);
          r = consumeCounter (tierConfig t) now c0
      in (fst r, L((t, key) \<mapsto> snd r)))"

text \<open>A sequence of consumptions of one tier and key at the given times.\<close>

fun consumeAll :: "limiter \<Rightarrow> tier \<Rightarrow> string \<Rightarrow> nat list \<Rightarrow> decision list \<times> limiter" where
  "consumeAll L t key [] = ([], L)"
| "consumeAll L t key (now # later) =
     (let r = Consume L t key now;
          rest = consumeAll (snd r) t key later
      in (fst r # fst rest, snd rest))"

section \<open>Sample collaborators\<close>

text \<open>An instance of the regular-expression count for patterns without special characters:
  the number of non-overlapping occurrences of a literal pattern.\<close>

fun occurrences :: "string \<Rightarrow> string \<Rightarrow> nat" where
  "occurrences p [] = 0"
| "occurrences p (c # cs) =
     (if startsWith (c # cs) p then Suc (occurrences p (drop (length p - 1) cs))
      else occurrences p cs)"

definition literalCount :: "string \<Rightarrow> string \<Rightarrow> nat option" where
  "literalCount p t =
     (if p = [] \<or> list_ex (\<lambda>c. c \<in> set ''^$.|?*+()[]{}'' \<or> c = char_of (92 :: nat)) p
      then None else Some (occurrences p t))"

definition sampleRows :: "row list" where
  "sampleRows =
     [\<lparr>row_id = 1, row_title = ''Alpha'', row_content = ''needle in a haystack'',
       row_category = Some ''general'', row_tags = Some ''[]'', updated_at = ''2024-01-02''\<rparr>,
      \<lparr>row_id = 2, row_title = ''Beta'', row_content = ''plain text'',
       row_category = Some ''general'', row_tags = None, updated_at = ''2024-01-03''\<rparr>,
      \<lparr>row_id = 3, row_title = ''Needlework'', row_content = ''sewing'',
       row_category = Some ''craft'', row_tags = Some ''[]'', updated_at = ''2024-01-01''\<rparr>]"

definition sampleFiles :: "fsentry list" where
  "sampleFiles =
     [File ''ab.txt'' (Some ''nothing here'') True,
      File ''zz.txt'' (Some ''ab and ab and ab'') True]"

definition sampleDistance :: "string \<Rightarrow> string \<Rightarrow> real option" where
  "sampleDistance q f =
     (if f = ''Alpha'' then Some (3 / 10)
      else if f = ''Beta'' then Some (1 / 2)
      else if f = ''sewing'' then Some 0
      else None)"

definition sampleWorld :: world where
  "sampleWorld =
     \<lparr>table = Some sampleRows, sql_like = likeMatch, parseTags = (\<lambda>t. Some []),
      fuseDistance = sampleDistance,
      readdir = (\<lambda>p. if p = ''.'' then Some sampleFiles else None),
      regexCount = literalCount,
      encodeURIComponent = Some\<rparr>"

text \<open>The same collaborators with every source out of order: the database rejects its
  queries and \<open>encodeURIComponent\<close> throws.\<close>

definition failingWorld :: world where
  "failingWorld = sampleWorld\<lparr>table := None, encodeURIComponent := (\<lambda>q. None)\<rparr>"

definition defaultOptions :: advanced_options where
  "defaultOptions = \<lparr>adv_limit = None, adv_path = None\<rparr>"

text \<open>Call times, in seconds: with a call at 0 before them and one at 10 after them, 31
  calls within 10 seconds.\<close>

definition sampleTimes :: "nat list" where
  "sampleTimes = map (\<lambda>i. i div 3) [1..<30]"

definition defaultLocalOptions :: local_options where
  "defaultLocalOptions =
     \<lparr>local_limit = None, fuzzy = None, threshold = None, suggestionsOnly = None,
      category = None\<rparr>"

definition defaultFileOptions :: file_options where
  "defaultFileOptions = \<lparr>file_limit = None, extensions = None, includeContent = None\<rparr>"

text \<open>Results as the sources hand them to the aggregator: a file and a record with the
  same title, records with the same content, and a record that shares neither.\<close>

definition sampleRecord :: "string \<Rightarrow> string \<Rightarrow> real \<Rightarrow> item" where
  "sampleRecord t c s =
     localItem \<lparr>entry_row = \<lparr>row_id = 0, row_title = t, row_content = c,
                   row_category = None, row_tags = None, updated_at = []\<rparr>,
                entry_tags = []\<rparr> (Some s)"

definition sampleCombined :: "item list" where
  "sampleCombined =
     [fileItem ''notes.txt'' ''notes.txt'' 2 ''text'',
      sampleRecord ''notes.txt'' ''hello'' (1 / 5),
      sampleRecord ''Greeting'' ''hello'' (3 / 10),
      sampleRecord ''Other'' ''hello'' (2 / 5),
      sampleRecord ''Alone'' ''bye'' (1 / 2)]"

text \<open>A store and a directory with duplicates: two records with the same content, a file
  named like a record, and two files with the same text under different names.\<close>

definition duplicateRows :: "row list" where
  "duplicateRows =
     [\<lparr>row_id = 1, row_title = ''Needlework'', row_content = ''sewing'',
       row_category = Some ''craft'', row_tags = Some ''[]'', updated_at = ''2024-01-03''\<rparr>,
      \<lparr>row_id = 2, row_title = ''Stitching'', row_content = ''sewing'',
       row_category = Some ''craft'', row_tags = Some ''[]'', updated_at = ''2024-01-02''\<rparr>,
      \<lparr>row_id = 3, row_title = ''Alpha'', row_content = ''needle in a haystack'',
       row_category = Some ''general'', row_tags = Some ''[]'', updated_at = ''2024-01-01''\<rparr>]"

definition duplicateFiles :: "fsentry list" where
  "duplicateFiles =
     [File ''Needlework'' None True,
      File ''needle-a.txt'' (Some ''needle notes'') True,
      File ''needle-b.txt'' (Some ''needle notes'') True]"

definition duplicateWorld :: world where
  "duplicateWorld =
     sampleWorld\<lparr>table := Some duplicateRows,
       readdir := (\<lambda>p. if p = ''.'' then Some duplicateFiles else None)\<rparr>"



section \<open>Properties of the aggregated search\<close>

lemma ceilDiv_ceiling: "ceilDiv l n = \<lceil>real_of_int l / real n\<rceil>"
proof -
  have "\<lceil>real_of_int l / real_of_int (int n)\<rceil> = - (- l div int n)"
    by (rule ceiling_divide_eq_div)
  then show ?thesis by (simp add: ceilDiv_def)
qed

lemma searchLocal_results:
  "suggestionsOnly options \<noteq> Some True \<Longrightarrow> searchLocal w query options \<noteq> Inr (Suggestions ss)"
  by (simp add: searchLocal_def Let_def split: option.splits)

lemma searchAdvanced_returns: "\<exists>rs. searchAdvanced w query sourcesArg options = Inr rs"
  by (simp add: searchAdvanced_def)

lemma slice0_Nil: "slice0 k [] = []"
  by (simp add: slice0_def)

lemma array_sort_Nil: "array_sort cmp [] = []"
  by (simp add: array_sort_def)

lemma removeDuplicates_Nil: "removeDuplicates [] = []"
  by (simp add: removeDuplicates_def)

lemma catchWith_failed: "sourceFailed (catchWith l p) \<Longrightarrow> catchWith l p = Recovered l []"
  by (cases p) (simp_all add: catchWith_def sourceFailed_def)

lemma promises_failed_empty:
  assumes "list_all sourceFailed (searchPromises w query sources limit p)"
  shows "combineResults (searchPromises w query sources limit p) = []"
  using assms
  by (auto simp: searchPromises_def combineResults_def Let_def dest!: catchWith_failed)

text \<open>
  C2. If every requested source of an aggregated search fails, that is, every promise of
  the search settles through its \<open>catch\<close> handler, \<open>searchAdvanced\<close> returns the empty
  list and no error. In particular, when the web search fails (its only failure is
  \<open>encodeURIComponent\<close> throwing) and the sources are \<open>['web']\<close>, the result is the empty
  list.
\<close>

theorem all_sources_fail_empty:
  "(list_all sourceFailed
      (searchPromises w query (sourcesOf sourcesArg) (limitOf options) (adv_path options))
    \<longrightarrow> searchAdvanced w query sourcesArg options = Inr [])
   \<and> (encodeURIComponent w query = None
    \<longrightarrow> searchAdvanced w query (Some [''web'']) options = Inr [])"
proof (intro conjI impI)
  assume "list_all sourceFailed
      (searchPromises w query (sourcesOf sourcesArg) (limitOf options) (adv_path options))"
  then show "searchAdvanced w query sourcesArg options = Inr []"
    by (simp add: searchAdvanced_def uniqueResults_def promises_failed_empty
        removeDuplicates_Nil array_sort_Nil slice0_Nil)
next
  assume "encodeURIComponent w query = None"
  then show "searchAdvanced w query (Some [''web'']) options = Inr []"
    by (simp add: searchAdvanced_def uniqueResults_def sourcesOf_def searchPromises_def
        searchWeb_def catchWith_def combineResults_def Let_def
        removeDuplicates_Nil array_sort_Nil slice0_Nil)
qed

theorem all_sources_fail_empty_witness:
  "list_all sourceFailed
      (searchPromises failingWorld ''needle'' (sourcesOf (Some [''web'', ''local'']))
         (limitOf defaultOptions) (adv_path defaultOptions))
   \<and> searchAdvanced failingWorld ''needle'' (Some [''web'', ''local'']) defaultOptions = Inr []
   \<and> encodeURIComponent failingWorld ''needle'' = None
   \<and> searchAdvanced failingWorld ''needle'' (Some [''web'']) defaultOptions = Inr []"
proof -
  have h1: "list_all sourceFailed
      (searchPromises failingWorld ''needle'' (sourcesOf (Some [''web'', ''local'']))
         (limitOf defaultOptions) (adv_path defaultOptions))"
    by (simp add: searchPromises_def sourcesOf_def failingWorld_def sampleWorld_def
        searchWeb_def searchLocal_def getDataFromDB_def localResults_def catchWith_def
        sourceFailed_def Let_def)
  have h2: "encodeURIComponent failingWorld ''needle'' = None"
    by (simp add: failingWorld_def)
  from all_sources_fail_empty
         [of failingWorld "''needle''" "Some [''web'', ''local'']" defaultOptions]
    h1 h2 show ?thesis by simp
qed

text \<open>
  C4, as the code has it. The claim is that an empty \<open>sources\<close> array is a hard error for
  the caller. \<open>searchAdvanced\<close> does not inspect the array beyond the three membership
  tests: with no source selected no promise is made, and the result is the empty list.
\<close>

theorem no_sources_counterexample:
  "searchAdvanced sampleWorld ''needle'' (Some []) defaultOptions = Inr []
   \<and> \<not> isl (searchAdvanced sampleWorld ''needle'' (Some []) defaultOptions)"
  by (simp add: searchAdvanced_def uniqueResults_def sourcesOf_def searchPromises_def
      combineResults_def removeDuplicates_Nil array_sort_Nil slice0_Nil)

text \<open>
  C4, amended. For every query and every option, \<open>searchAdvanced\<close> called with an empty
  \<open>sources\<close> array starts no search and returns the empty result list, not an error.
\<close>

theorem no_sources_empty_result:
  "searchPromises w query (sourcesOf (Some [])) (limitOf options) (adv_path options) = []
   \<and> searchAdvanced w query (Some []) options = Inr []"
  by (simp add: searchAdvanced_def uniqueResults_def sourcesOf_def searchPromises_def
      combineResults_def removeDuplicates_Nil array_sort_Nil slice0_Nil)

subsection \<open>Deduplication\<close>

lemma isDuplicate_refl: "isDuplicate a a"
  by (simp add: isDuplicate_def)

lemma isDuplicate_sym: "isDuplicate a b \<Longrightarrow> isDuplicate b a"
  by (auto simp: isDuplicate_def)

lemma isDuplicate_iff:
  "isDuplicate a b \<longleftrightarrow>
     title a = title b \<or> (\<exists>c. c \<noteq> [] \<and> content a = Some c \<and> content b = Some c)"
  by (auto simp: isDuplicate_def truthyString_def split: option.splits)

lemma set_pushUnique: "set (pushUnique x u) \<subseteq> insert x (set u)"
  by (auto simp: pushUnique_def)

lemma set_pushUnique_mono: "set u \<subseteq> set (pushUnique x u)"
  by (auto simp: pushUnique_def)

lemma pushUnique_represents: "\<exists>e\<in>set (pushUnique x u). isDuplicate e x"
  by (auto simp: pushUnique_def list_ex_iff isDuplicate_refl)

lemma pushUnique_apart:
  "sorted_wrt (\<lambda>a b. \<not> isDuplicate a b) u
   \<Longrightarrow> sorted_wrt (\<lambda>a b. \<not> isDuplicate a b) (pushUnique x u)"
  by (auto simp: pushUnique_def list_ex_iff sorted_wrt_append)

lemma fold_pushUnique_set: "set (fold pushUnique xs u) \<subseteq> set u \<union> set xs"
proof (induction xs arbitrary: u)
  case Nil
  show ?case by simp
next
  case (Cons x xs)
  from Cons.IH [of "pushUnique x u"] set_pushUnique [of x u] show ?case by auto
qed

lemma fold_pushUnique_mono: "set u \<subseteq> set (fold pushUnique xs u)"
proof (induction xs arbitrary: u)
  case Nil
  show ?case by simp
next
  case (Cons x xs)
  from Cons.IH [of "pushUnique x u"] set_pushUnique_mono [of u x] show ?case by auto
qed

lemma fold_pushUnique_apart:
  "sorted_wrt (\<lambda>a b. \<not> isDuplicate a b) u
   \<Longrightarrow> sorted_wrt (\<lambda>a b. \<not> isDuplicate a b) (fold pushUnique xs u)"
  by (induction xs arbitrary: u) (simp_all add: pushUnique_apart)

lemma fold_pushUnique_represents:
  "x \<in> set xs \<Longrightarrow> \<exists>e\<in>set (fold pushUnique xs u). isDuplicate e x"
proof (induction xs arbitrary: u)
  case Nil
  then show ?case by simp
next
  case (Cons y ys)
  show ?case
  proof (cases "x = y")
    case True
    obtain e where e: "e \<in> set (pushUnique y u)" "isDuplicate e x"
      using pushUnique_represents [of y u] True by auto
    with fold_pushUnique_mono [of "pushUnique y u" ys] show ?thesis by auto
  next
    case False
    with Cons.prems have "x \<in> set ys" by simp
    from Cons.IH [OF this, of "pushUnique y u"] show ?thesis by simp
  qed
qed

lemma removeDuplicates_subset: "set (removeDuplicates xs) \<subseteq> set xs"
  using fold_pushUnique_set [of xs "[]"] by (simp add: removeDuplicates_def)

lemma removeDuplicates_apart: "sorted_wrt (\<lambda>a b. \<not> isDuplicate a b) (removeDuplicates xs)"
  using fold_pushUnique_apart [of "[]" xs] by (simp add: removeDuplicates_def)

lemma removeDuplicates_represents:
  "x \<in> set xs \<Longrightarrow> \<exists>e\<in>set (removeDuplicates xs). isDuplicate e x"
  by (simp add: removeDuplicates_def fold_pushUnique_represents)

lemma apart_distinct_titles:
  "sorted_wrt (\<lambda>a b. \<not> isDuplicate a b) u \<Longrightarrow> distinct (map title u)"
  by (induction u) (auto simp: isDuplicate_def)

lemma apart_pairs:
  assumes "sorted_wrt (\<lambda>a b. \<not> isDuplicate a b) u" "a \<in> set u" "b \<in> set u" "isDuplicate a b"
  shows "a = b"
  using assms
proof (induction u)
  case Nil
  then show ?case by simp
next
  case (Cons x xs)
  then show ?case by (auto dest: isDuplicate_sym)
qed

lemma set_insertBy: "set (insertBy cmp x xs) = insert x (set xs)"
  by (induction xs) auto

lemma set_array_sort: "set (array_sort cmp xs) = set xs"
  by (induction xs) (simp_all add: array_sort_def set_insertBy)

lemma distinct_map_insertBy:
  "distinct (map f (insertBy cmp x xs)) \<longleftrightarrow> f x \<notin> f ` set xs \<and> distinct (map f xs)"
  by (induction xs) (auto simp: set_insertBy)

lemma distinct_map_array_sort:
  "distinct (map f (array_sort cmp xs)) \<longleftrightarrow> distinct (map f xs)"
proof (induction xs)
  case Nil
  show ?case by (simp add: array_sort_def)
next
  case (Cons x xs)
  have "array_sort cmp (x # xs) = insertBy cmp x (array_sort cmp xs)"
    by (simp add: array_sort_def)
  with Cons show ?case by (simp add: distinct_map_insertBy set_array_sort)
qed

lemma set_slice0: "set (slice0 k xs) \<subseteq> set xs"
  by (auto simp: slice0_def dest: in_set_takeD)

lemma distinct_map_slice0: "distinct (map f xs) \<Longrightarrow> distinct (map f (slice0 k xs))"
  by (simp add: slice0_def take_map [symmetric] del: take_map)

lemma length_insertBy: "length (insertBy cmp x xs) = Suc (length xs)"
  by (induction xs) simp_all

lemma length_array_sort: "length (array_sort cmp xs) = length xs"
  by (induction xs) (simp_all add: array_sort_def length_insertBy)

lemma length_slice0: "length xs = length ys \<Longrightarrow> length (slice0 k xs) = length (slice0 k ys)"
  by (simp add: slice0_def)

lemma slice0_all: "int (length xs) \<le> k \<Longrightarrow> slice0 k xs = xs"
  by (simp add: slice0_def)

text \<open>
  C5, as the code has it. The claim counts two results as duplicates when both have
  non-empty bodies that are equal. The code compares the field \<open>content\<close> only, which file
  and web results do not carry: two files with the same text under different names are
  not duplicates of each other, and both are in the final output.
\<close>

theorem equal_bodies_counterexample:
  "searchAdvanced duplicateWorld ''needle'' (Some [''files'']) defaultOptions
     = Inr [fileItem ''needle-a.txt'' ''needle-a.txt'' 1 ''needle notes'',
            fileItem ''needle-b.txt'' ''needle-b.txt'' 1 ''needle notes'',
            fileItem ''Needlework'' ''Needlework'' 0 []]
   \<and> snippet (fileItem ''needle-a.txt'' ''needle-a.txt'' 1 ''needle notes'')
       = Some ''needle notes''
   \<and> snippet (fileItem ''needle-b.txt'' ''needle-b.txt'' 1 ''needle notes'')
       = Some ''needle notes''
   \<and> \<not> isDuplicate (fileItem ''needle-a.txt'' ''needle-a.txt'' 1 ''needle notes'')
          (fileItem ''needle-b.txt'' ''needle-b.txt'' 1 ''needle notes'')"
proof -
  have "searchAdvanced duplicateWorld ''needle'' (Some [''files'']) defaultOptions
     = Inr [fileItem ''needle-a.txt'' ''needle-a.txt'' 1 ''needle notes'',
            fileItem ''needle-b.txt'' ''needle-b.txt'' 1 ''needle notes'',
            fileItem ''Needlework'' ''Needlework'' 0 []]"
    by code_simp
  then show ?thesis
    by (simp add: fileItem_def fileSnippet_def isDuplicate_def truthyString_def)
qed

text \<open>
  C5, amended. Two results are duplicates exactly when their titles are equal or both
  carry a non-empty field \<open>content\<close> and the two fields are equal; snippets are not
  compared. The deduplication step keeps only results it was given and keeps no two
  duplicates; every result it was given has a duplicate among the kept ones (a dropped
  result collapsed into a kept one); a result with no duplicate but itself in the input
  is never dropped. \<open>searchAdvanced\<close> returns a list: its entries are kept results of the
  step run on the combined results of the sources, all its titles are different, and it
  has as many entries as the first \<open>limit\<close> of the kept results. When the limit is not
  below the number of kept results, the output holds every kept result, so every combined
  result has a duplicate in the output.
\<close>

theorem deduplication:
  "(isDuplicate a b \<longleftrightarrow>
      title a = title b \<or> (\<exists>c. c \<noteq> [] \<and> content a = Some c \<and> content b = Some c))
   \<and> set (removeDuplicates xs) \<subseteq> set xs
   \<and> sorted_wrt (\<lambda>x y. \<not> isDuplicate x y) (removeDuplicates xs)
   \<and> (\<forall>x\<in>set xs. \<exists>e\<in>set (removeDuplicates xs). isDuplicate e x)
   \<and> (\<forall>x\<in>set xs. (\<forall>y\<in>set xs. isDuplicate y x \<longrightarrow> y = x)
          \<longrightarrow> x \<in> set (removeDuplicates xs))
   \<and> (\<exists>rs. searchAdvanced w query sourcesArg options = Inr rs)
   \<and> (\<forall>rs. searchAdvanced w query sourcesArg options = Inr rs
          \<longrightarrow> uniqueResults w query sourcesArg options
                = removeDuplicates (combinedResults w query sourcesArg options)
              \<and> set rs \<subseteq> set (uniqueResults w query sourcesArg options)
              \<and> distinct (map title rs)
              \<and> (\<forall>x\<in>set rs. \<forall>y\<in>set rs. isDuplicate x y \<longrightarrow> x = y)
              \<and> length rs
                  = length (slice0 (limitOf options) (uniqueResults w query sourcesArg options))
              \<and> (int (length (uniqueResults w query sourcesArg options)) \<le> limitOf options
                  \<longrightarrow> set rs = set (uniqueResults w query sourcesArg options)
                    \<and> (\<forall>x\<in>set (combinedResults w query sourcesArg options).
                          \<exists>e\<in>set rs. isDuplicate e x)))"
proof (intro conjI ballI allI impI)
  show "isDuplicate a b \<longleftrightarrow>
      title a = title b \<or> (\<exists>c. c \<noteq> [] \<and> content a = Some c \<and> content b = Some c)"
    by (rule isDuplicate_iff)
  show "set (removeDuplicates xs) \<subseteq> set xs"
    by (rule removeDuplicates_subset)
  show "sorted_wrt (\<lambda>x y. \<not> isDuplicate x y) (removeDuplicates xs)"
    by (rule removeDuplicates_apart)
  show "\<exists>rs. searchAdvanced w query sourcesArg options = Inr rs"
    by (simp add: searchAdvanced_def)
next
  fix x assume "x \<in> set xs"
  then show "\<exists>e\<in>set (removeDuplicates xs). isDuplicate e x"
    by (rule removeDuplicates_represents)
next
  fix x assume x: "x \<in> set xs" and alone: "\<forall>y\<in>set xs. isDuplicate y x \<longrightarrow> y = x"
  from removeDuplicates_represents [OF x] obtain e
    where e: "e \<in> set (removeDuplicates xs)" "isDuplicate e x" by auto
  with removeDuplicates_subset [of xs] alone have "e = x" by auto
  with e show "x \<in> set (removeDuplicates xs)" by simp
next
  fix rs assume rs: "searchAdvanced w query sourcesArg options = Inr rs"
  let ?u = "uniqueResults w query sourcesArg options"
  let ?c = "combinedResults w query sourcesArg options"
  show u: "?u = removeDuplicates ?c"
    by (simp add: uniqueResults_def combinedResults_def)
  have apart: "sorted_wrt (\<lambda>a b. \<not> isDuplicate a b) ?u"
    by (simp add: uniqueResults_def removeDuplicates_apart)
  from rs have rs_eq: "rs = slice0 (limitOf options) (array_sort advancedCompare ?u)"
    by (simp add: searchAdvanced_def)
  show sub: "set rs \<subseteq> set ?u"
    unfolding rs_eq using set_slice0 [of "limitOf options" "array_sort advancedCompare ?u"]
    by (simp add: set_array_sort)
  show "distinct (map title rs)"
    unfolding rs_eq
    by (intro distinct_map_slice0) (simp add: distinct_map_array_sort apart_distinct_titles [OF apart])
  show "length rs = length (slice0 (limitOf options) ?u)"
    unfolding rs_eq by (rule length_slice0) (rule length_array_sort)
  {
    fix x y assume "x \<in> set rs" "y \<in> set rs" "isDuplicate x y"
    with sub show "x = y" using apart_pairs [OF apart] by blast
  }
  {
    assume enough: "int (length ?u) \<le> limitOf options"
    then have "rs = array_sort advancedCompare ?u"
      unfolding rs_eq by (simp add: slice0_all length_array_sort)
    then show all: "set rs = set ?u" by (simp add: set_array_sort)
    fix x assume "x \<in> set ?c"
    from removeDuplicates_represents [OF this] show "\<exists>e\<in>set rs. isDuplicate e x"
      unfolding all u .
  }
qed

theorem deduplication_witness:
  "map title (combinedResults duplicateWorld ''needle'' None defaultOptions)
     = [''Needlework'', ''Stitching'', ''Alpha'', ''needle-a.txt'', ''needle-b.txt'',
        ''Needlework'']
   \<and> map title (uniqueResults duplicateWorld ''needle'' None defaultOptions)
     = [''Needlework'', ''Alpha'', ''needle-a.txt'', ''needle-b.txt'']
   \<and> int (length (uniqueResults duplicateWorld ''needle'' None defaultOptions))
       \<le> limitOf defaultOptions
   \<and> (\<exists>rs. searchAdvanced duplicateWorld ''needle'' None defaultOptions = Inr rs
          \<and> set rs = set (uniqueResults duplicateWorld ''needle'' None defaultOptions)
          \<and> distinct (map title rs)
          \<and> length rs = 4)
   \<and> sampleRecord ''Alone'' ''bye'' (1 / 2) \<in> set sampleCombined
   \<and> sampleRecord ''Alone'' ''bye'' (1 / 2) \<in> set (removeDuplicates sampleCombined)
   \<and> isDuplicate (fileItem ''notes.txt'' ''notes.txt'' 2 ''text'')
        (sampleRecord ''notes.txt'' ''hello'' (1 / 5))"
proof -
  let ?x = "sampleRecord ''Alone'' ''bye'' (1 / 2)"
  let ?u = "uniqueResults duplicateWorld ''needle'' None defaultOptions"
  note d = deduplication [of "fileItem ''notes.txt'' ''notes.txt'' 2 ''text''"
      "sampleRecord ''notes.txt'' ''hello'' (1 / 5)" sampleCombined
      duplicateWorld "''needle''" None defaultOptions]
  have c: "map title (combinedResults duplicateWorld ''needle'' None defaultOptions)
     = [''Needlework'', ''Stitching'', ''Alpha'', ''needle-a.txt'', ''needle-b.txt'',
        ''Needlework'']"
    by code_simp
  have u: "map title ?u = [''Needlework'', ''Alpha'', ''needle-a.txt'', ''needle-b.txt'']"
    by code_simp
  from u have len: "length ?u = 4"
    using length_map [of title ?u] by simp
  then have enough: "int (length ?u) \<le> limitOf defaultOptions"
    by (simp add: limitOf_def defaultOptions_def)
  have mem: "?x \<in> set sampleCombined"
    by (simp add: sampleCombined_def)
  have alone: "\<forall>y\<in>set sampleCombined. isDuplicate y ?x \<longrightarrow> y = ?x"
    by (simp add: sampleCombined_def sampleRecord_def localItem_def fileItem_def
        isDuplicate_def truthyString_def)
  have kept: "?x \<in> set (removeDuplicates sampleCombined)"
    using d mem alone by blast
  have dup: "isDuplicate (fileItem ''notes.txt'' ''notes.txt'' 2 ''text'')
        (sampleRecord ''notes.txt'' ''hello'' (1 / 5))"
    using d by (simp add: sampleRecord_def localItem_def fileItem_def)
  from d obtain rs where rs: "searchAdvanced duplicateWorld ''needle'' None defaultOptions = Inr rs"
    by blast
  with d enough have facts: "set rs = set ?u" "distinct (map title rs)"
      "length rs = length (slice0 (limitOf defaultOptions) ?u)"
    by blast+
  from facts(3) enough len have "length rs = 4"
    by (simp add: slice0_all)
  with rs facts c u enough mem kept dup show ?thesis by blast
qed

subsection \<open>What the sources put into a result\<close>

lemma searchInDirectory_items:
  assumes "\<And>name p m c. Q (fileItem name p m c)"
  shows "(\<forall>x\<in>set results. Q x)
    \<Longrightarrow> (\<forall>x\<in>set (searchInDirectory w query limit exts inc dir es results). Q x)"
proof (induction w query limit exts inc dir es results rule: searchInDirectory.induct)
  case (1 w query limit exts inc dir results)
  then show ?case by simp
next
  case (2 w query limit exts inc dir name sub es results)
  then show ?case by (simp add: Let_def split: option.splits)
next
  case (3 w query limit exts inc dir name es results)
  then show ?case by simp
next
  case (4 w query limit exts inc dir name body stat_ok es results)
  then show ?case using assms by (simp add: Let_def)
qed

lemma searchFiles_items:
  assumes "\<And>name p m c. Q (fileItem name p m c)"
    and "searchFiles w query searchPath options = Inr rs" and "x \<in> set rs"
  shows "Q x"
proof -
  let ?limit = "case file_limit options of None \<Rightarrow> 50 | Some k \<Rightarrow> k"
  let ?exts = "case extensions options of None \<Rightarrow> textExtensions | Some xs \<Rightarrow> xs"
  let ?inc = "case includeContent options of None \<Rightarrow> True | Some b \<Rightarrow> b"
  let ?results = "case readdir w searchPath of None \<Rightarrow> []
     | Some es \<Rightarrow> searchInDirectory w query ?limit ?exts ?inc searchPath es []"
  have all: "\<forall>y\<in>set ?results. Q y"
  proof (cases "readdir w searchPath")
    case None
    then show ?thesis by simp
  next
    case (Some es)
    from searchInDirectory_items [of Q "[]" w query ?limit ?exts ?inc searchPath es] assms(1)
    show ?thesis using Some by simp
  qed
  from assms(2) have "rs = slice0 ?limit (array_sort (filesCompare query) ?results)"
    by (simp add: searchFiles_def Let_def)
  with assms(3) set_slice0 [of ?limit "array_sort (filesCompare query) ?results"]
  have "x \<in> set ?results" by (auto simp: set_array_sort)
  with all show ?thesis by blast
qed

lemma searchWeb_items:
  assumes "searchWeb w query options = Inr rs" and "x \<in> set rs"
  shows "score x = None \<and> matches x = None"
proof (cases "encodeURIComponent w query")
  case None
  with assms(1) show ?thesis by (simp add: searchWeb_def)
next
  case (Some enc)
  with assms(1) obtain k ys where rs: "rs = slice0 k ys"
    and ys: "\<forall>y\<in>set ys. score y = None \<and> matches y = None"
    by (auto simp: searchWeb_def Let_def)
  from assms(2) rs set_slice0 [of k ys] have "x \<in> set ys" by auto
  with ys show ?thesis by blast
qed

lemma searchLocal_items:
  assumes "searchLocal w query options = Inr (Results rs)" and "x \<in> set rs"
  shows "matches x = None"
  using assms
  by (auto simp: searchLocal_def Let_def localItem_def split: if_splits option.splits
      dest!: subsetD [OF set_slice0])

lemma localResults_items:
  assumes "localResults (searchLocal w query options) = Inr rs" and "x \<in> set rs"
  shows "matches x = None"
proof -
  from assms have "searchLocal w query options = Inr (Results rs)"
    by (auto simp: localResults_def split: sum.splits local_result.splits)
  from searchLocal_items [OF this assms(2)] show ?thesis .
qed

lemma catchWith_items:
  "x \<in> set (case catchWith l p of Fulfilled rs \<Rightarrow> rs | Recovered e rs \<Rightarrow> rs)
   \<Longrightarrow> \<exists>rs. p = Inr rs \<and> x \<in> set rs"
  by (cases p) (simp_all add: catchWith_def)

lemma combined_items:
  assumes "x \<in> set (combineResults (searchPromises w query sources limit p))"
  shows "score x = None \<or> matches x = None"
proof -
  from assms consider
      opts rs where "searchWeb w query opts = Inr rs" "x \<in> set rs"
    | opts rs where "localResults (searchLocal w query opts) = Inr rs" "x \<in> set rs"
    | d opts rs where "searchFiles w query d opts = Inr rs" "x \<in> set rs"
    by (auto simp: combineResults_def searchPromises_def Let_def split: if_splits
        dest!: catchWith_items)
  then show ?thesis
  proof cases
    case 1
    from searchWeb_items [OF 1] show ?thesis by simp
  next
    case 2
    from localResults_items [OF 2] show ?thesis by simp
  next
    case 3
    have "score x = None"
      by (rule searchFiles_items [of "\<lambda>x. score x = None", OF _ 3]) (simp add: fileItem_def)
    then show ?thesis by simp
  qed
qed

lemma uniqueResults_items:
  assumes "x \<in> set (uniqueResults w query sourcesArg options)"
  shows "score x = None \<or> matches x = None"
proof -
  from assms removeDuplicates_subset
  have "x \<in> set (combineResults
      (searchPromises w query (sourcesOf sourcesArg) (limitOf options) (adv_path options)))"
    unfolding uniqueResults_def by blast
  then show ?thesis by (rule combined_items)
qed

subsection \<open>The final sort\<close>

lemma insertBy_barrier:
  "cmp x z \<le> 0 \<Longrightarrow> insertBy cmp x (P @ z # S) = insertBy cmp x P @ z # S"
  by (induction P) simp_all

lemma array_sort_Cons: "array_sort cmp (x # xs) = insertBy cmp x (array_sort cmp xs)"
  by (simp add: array_sort_def)

lemma insertBy_first:
  "\<forall>y\<in>set ys. cmp z y \<le> 0 \<Longrightarrow> insertBy cmp z ys = z # ys"
  by (cases ys) simp_all

lemma array_sort_barrier:
  assumes "\<forall>x\<in>set P. cmp x z \<le> 0" and "\<forall>y\<in>set S. cmp z y \<le> 0"
  shows "array_sort cmp (P @ z # S) = array_sort cmp P @ z # array_sort cmp S"
  using assms(1)
proof (induction P)
  case Nil
  from assms(2) have "\<forall>y\<in>set (array_sort cmp S). cmp z y \<le> 0"
    by (simp add: set_array_sort)
  then show ?case by (simp add: array_sort_Cons insertBy_first array_sort_Nil)
next
  case (Cons x P)
  then show ?case by (simp add: array_sort_Cons insertBy_barrier)
qed

lemma zero_score_compare:
  assumes "score z = Some 0" and "matches z = None"
  shows "advancedCompare z y = 0" and "advancedCompare y z = 0"
  using assms by (simp_all add: advancedCompare_def truthyScore_def truthyCount_def)

text \<open>
  C9. A result of the pre-sort list whose score is exactly 0 is not ordered by the score
  comparison: the comparator returns 0 for it against every result, in both argument
  orders, whatever the other's score. The sort leaves it where it was: the results before
  it are sorted among themselves and stay before it, those after it are sorted among
  themselves and stay after it, and \<open>searchAdvanced\<close> returns the prefix of that list.
\<close>

theorem zero_score_keeps_position:
  assumes "uniqueResults w query sourcesArg options = P @ z # S" and "score z = Some 0"
  shows "(\<forall>y. advancedCompare z y = 0 \<and> advancedCompare y z = 0)
    \<and> array_sort advancedCompare (P @ z # S)
        = array_sort advancedCompare P @ z # array_sort advancedCompare S
    \<and> searchAdvanced w query sourcesArg options
        = Inr (slice0 (limitOf options)
            (array_sort advancedCompare P @ z # array_sort advancedCompare S))"
proof -
  from assms(1) have "z \<in> set (uniqueResults w query sourcesArg options)" by simp
  with uniqueResults_items assms(2) have m: "matches z = None" by fastforce
  have c: "\<forall>y. advancedCompare z y = 0 \<and> advancedCompare y z = 0"
    using zero_score_compare [OF assms(2) m] by blast
  then have s: "array_sort advancedCompare (P @ z # S)
        = array_sort advancedCompare P @ z # array_sort advancedCompare S"
    by (intro array_sort_barrier) simp_all
  from c s assms(1) show ?thesis by (simp add: searchAdvanced_def)
qed

theorem zero_score_keeps_position_witness:
  "\<exists>P S. uniqueResults sampleWorld ''needle'' (Some [''web'', ''local'']) defaultOptions
            = P @ sampleRecord ''Needlework'' ''sewing'' 0 # S
     \<and> length P = 2
     \<and> S = [sampleRecord ''Alpha'' ''needle in a haystack'' (3 / 10),
            sampleRecord ''Beta'' ''plain text'' (1 / 2)]
     \<and> score (sampleRecord ''Needlework'' ''sewing'' 0) = Some 0
     \<and> advancedCompare (sampleRecord ''Needlework'' ''sewing'' 0)
          (sampleRecord ''Alpha'' ''needle in a haystack'' (3 / 10)) = 0
     \<and> array_sort advancedCompare (P @ sampleRecord ''Needlework'' ''sewing'' 0 # S)
          = array_sort advancedCompare P @ sampleRecord ''Needlework'' ''sewing'' 0
              # array_sort advancedCompare S"
proof -
  let ?P = "projr (searchWeb sampleWorld ''needle'' \<lparr>web_limit = Some 25\<rparr>)"
  let ?z = "sampleRecord ''Needlework'' ''sewing'' 0"
  let ?S = "[sampleRecord ''Alpha'' ''needle in a haystack'' (3 / 10),
             sampleRecord ''Beta'' ''plain text'' (1 / 2)]"
  have u: "uniqueResults sampleWorld ''needle'' (Some [''web'', ''local'']) defaultOptions
      = ?P @ ?z # ?S"
    by code_simp
  have sc: "score ?z = Some 0"
    by (simp add: sampleRecord_def localItem_def)
  have len: "length ?P = 2"
    by (simp add: searchWeb_def sampleWorld_def slice0_def)
  note t = zero_score_keeps_position [OF u sc]
  from t have c: "advancedCompare ?z (sampleRecord ''Alpha'' ''needle in a haystack'' (3 / 10)) = 0"
    by blast
  from t have s: "array_sort advancedCompare (?P @ ?z # ?S)
      = array_sort advancedCompare ?P @ ?z # array_sort advancedCompare ?S"
    by blast
  from u sc len c s show ?thesis by blast
qed

text \<open>
  C1 at a failing input. The directory holds \<open>ab.txt\<close>, whose name contains the query
  \<open>ab\<close> and whose text does not, and \<open>zz.txt\<close>, whose text contains it three times. The
  file search ranks \<open>ab.txt\<close> first (relevance 10 against 3). In the final sort the
  comparator takes the count 0 of \<open>ab.txt\<close> for a missing count and returns 0, so the
  entry with 0 matches stays before the entry with 3: the count-only entries are not in
  descending order of their counts.
\<close>

theorem count_order_failing_input:
  "searchAdvanced sampleWorld ''ab'' (Some [''files'']) defaultOptions
     = Inr [fileItem ''ab.txt'' ''ab.txt'' 0 ''nothing here'',
            fileItem ''zz.txt'' ''zz.txt'' 3 ''ab and ab and ab'']
   \<and> advancedCompare (fileItem ''ab.txt'' ''ab.txt'' 0 ''nothing here'')
        (fileItem ''zz.txt'' ''zz.txt'' 3 ''ab and ab and ab'') = 0
   \<and> advancedCompare (fileItem ''zz.txt'' ''zz.txt'' 3 ''ab and ab and ab'')
        (fileItem ''ab.txt'' ''ab.txt'' 0 ''nothing here'') = 0"
proof -
  have "searchAdvanced sampleWorld ''ab'' (Some [''files'']) defaultOptions
     = Inr [fileItem ''ab.txt'' ''ab.txt'' 0 ''nothing here'',
            fileItem ''zz.txt'' ''zz.txt'' 3 ''ab and ab and ab'']"
    by code_simp
  then show ?thesis
    by (simp add: advancedCompare_def fileItem_def truthyScore_def truthyCount_def)
qed

section \<open>Properties of the file search\<close>

lemma sorted_wrt_insertBy:
  assumes agree: "\<And>a b. a \<in> A \<Longrightarrow> b \<in> A \<Longrightarrow> (cmp a b \<le> 0 \<longleftrightarrow> key b \<le> (key a :: int))"
    and "x \<in> A" and "set xs \<subseteq> A"
    and "sorted_wrt (\<lambda>a b. key b \<le> key a) xs"
  shows "sorted_wrt (\<lambda>a b. key b \<le> key a) (insertBy cmp x xs)"
  using assms(3,4)
proof (induction xs)
  case Nil
  then show ?case by simp
next
  case (Cons y ys)
  show ?case
  proof (cases "cmp x y \<le> 0")
    case True
    with agree [OF assms(2), of y] Cons.prems have "key y \<le> key x" by simp
    with Cons.prems True show ?thesis by fastforce
  next
    case False
    with agree [OF assms(2), of y] Cons.prems have "key x \<le> key y" by simp
    with Cons False show ?thesis by (auto simp: set_insertBy)
  qed
qed

lemma sorted_wrt_array_sort:
  assumes agree: "\<And>a b. a \<in> A \<Longrightarrow> b \<in> A \<Longrightarrow> (cmp a b \<le> 0 \<longleftrightarrow> key b \<le> (key a :: int))"
    and "set xs \<subseteq> A"
  shows "sorted_wrt (\<lambda>a b. key b \<le> key a) (array_sort cmp xs)"
  using assms(2)
proof (induction xs)
  case Nil
  show ?case by (simp add: array_sort_Nil)
next
  case (Cons x xs)
  then have "sorted_wrt (\<lambda>a b. key b \<le> key a) (array_sort cmp xs)" by simp
  moreover from Cons.prems have "x \<in> A" "set (array_sort cmp xs) \<subseteq> A"
    by (simp_all add: set_array_sort)
  ultimately have "sorted_wrt (\<lambda>a b. key b \<le> key a) (insertBy cmp x (array_sort cmp xs))"
    using agree by (intro sorted_wrt_insertBy [where A = A]) auto
  then show ?case by (simp add: array_sort_Cons)
qed

lemma sorted_wrt_slice0: "sorted_wrt R xs \<Longrightarrow> sorted_wrt R (slice0 k xs)"
  by (simp add: slice0_def)

lemma searchFiles_shape:
  "\<exists>k xs. searchFiles w query searchPath options
            = Inr (slice0 k (array_sort (filesCompare query) xs))
     \<and> (\<forall>x\<in>set xs. \<exists>m. matches x = Some m)"
proof (cases "readdir w searchPath")
  case None
  then have "searchFiles w query searchPath options
      = Inr (slice0 (case file_limit options of None \<Rightarrow> 50 | Some k \<Rightarrow> k)
          (array_sort (filesCompare query) []))"
    by (simp add: searchFiles_def Let_def)
  moreover have "\<forall>x\<in>set ([] :: item list). \<exists>m. matches x = Some m" by simp
  ultimately show ?thesis by blast
next
  case (Some es)
  let ?limit = "case file_limit options of None \<Rightarrow> 50 | Some k \<Rightarrow> k"
  let ?exts = "case extensions options of None \<Rightarrow> textExtensions | Some xs \<Rightarrow> xs"
  let ?inc = "case includeContent options of None \<Rightarrow> True | Some b \<Rightarrow> b"
  let ?xs = "searchInDirectory w query ?limit ?exts ?inc searchPath es []"
  have "\<forall>x\<in>set ?xs. \<exists>m. matches x = Some m"
    by (rule searchInDirectory_items) (simp_all add: fileItem_def)
  moreover have "searchFiles w query searchPath options
      = Inr (slice0 ?limit (array_sort (filesCompare query) ?xs))"
    using Some by (simp add: searchFiles_def Let_def)
  ultimately show ?thesis by blast
qed

text \<open>
  C7. \<open>searchFiles\<close> returns a list; every file in it carries a match count, and its
  relevance is that count plus 10 if its name contains the query, both in lower case, and
  plus 0 otherwise; the list is in descending order of this relevance.
\<close>

theorem searchFiles_sorted_by_relevance:
  "\<exists>rs. searchFiles w query searchPath options = Inr rs
     \<and> (\<forall>a\<in>set rs. \<exists>m. matches a = Some m
           \<and> relevance query a
               = Some (m + (if includes_str (toLowerCase (title a)) (toLowerCase query)
                            then 10 else 0)))
     \<and> sorted_wrt
         (\<lambda>a b. \<exists>ra rb. relevance query a = Some ra \<and> relevance query b = Some rb \<and> rb \<le> ra)
         rs"
proof -
  let ?key = "\<lambda>a. the (relevance query a)"
  let ?A = "{a. \<exists>m. matches a = Some m}"
  from searchFiles_shape obtain k xs
    where eq: "searchFiles w query searchPath options
        = Inr (slice0 k (array_sort (filesCompare query) xs))"
      and xs: "\<forall>x\<in>set xs. \<exists>m. matches x = Some m"
    by blast
  let ?rs = "slice0 k (array_sort (filesCompare query) xs)"
  have sub: "set ?rs \<subseteq> ?A"
    using set_slice0 [of k "array_sort (filesCompare query) xs"] xs
    by (auto simp: set_array_sort)
  have agree: "filesCompare query a b \<le> 0 \<longleftrightarrow> ?key b \<le> ?key a"
    if "a \<in> ?A" "b \<in> ?A" for a b
    using that by (auto simp: filesCompare_def relevance_def)
  have "sorted_wrt (\<lambda>a b. ?key b \<le> ?key a) (array_sort (filesCompare query) xs)"
    using xs by (intro sorted_wrt_array_sort [where A = ?A] agree) auto
  then have "sorted_wrt (\<lambda>a b. ?key b \<le> ?key a) ?rs"
    by (rule sorted_wrt_slice0)
  then have sorted: "sorted_wrt
      (\<lambda>a b. \<exists>ra rb. relevance query a = Some ra \<and> relevance query b = Some rb \<and> rb \<le> ra)
      ?rs"
  proof (rule sorted_wrt_mono_rel [rotated])
    fix a b assume ab: "a \<in> set ?rs" "b \<in> set ?rs" and le: "?key b \<le> ?key a"
    from sub ab obtain ma mb where "matches a = Some ma" "matches b = Some mb" by blast
    with le show "\<exists>ra rb. relevance query a = Some ra \<and> relevance query b = Some rb \<and> rb \<le> ra"
      by (simp add: relevance_def)
  qed
  have "\<forall>a\<in>set ?rs. \<exists>m. matches a = Some m
           \<and> relevance query a
               = Some (m + (if includes_str (toLowerCase (title a)) (toLowerCase query)
                            then 10 else 0))"
    using sub by (auto simp: relevance_def)
  with eq sorted show ?thesis by blast
qed

theorem searchFiles_sorted_by_relevance_witness:
  "\<exists>rs. searchFiles sampleWorld ''ab'' ''.'' defaultFileOptions = Inr rs
     \<and> rs = [fileItem ''ab.txt'' ''ab.txt'' 0 ''nothing here'',
             fileItem ''zz.txt'' ''zz.txt'' 3 ''ab and ab and ab'']
     \<and> relevance ''ab'' (fileItem ''ab.txt'' ''ab.txt'' 0 ''nothing here'') = Some 10
     \<and> relevance ''ab'' (fileItem ''zz.txt'' ''zz.txt'' 3 ''ab and ab and ab'') = Some 3
     \<and> sorted_wrt
         (\<lambda>a b. \<exists>ra rb. relevance ''ab'' a = Some ra \<and> relevance ''ab'' b = Some rb \<and> rb \<le> ra)
         rs"
proof -
  have ev: "searchFiles sampleWorld ''ab'' ''.'' defaultFileOptions
      = Inr [fileItem ''ab.txt'' ''ab.txt'' 0 ''nothing here'',
             fileItem ''zz.txt'' ''zz.txt'' 3 ''ab and ab and ab'']"
    by code_simp
  have r1: "relevance ''ab'' (fileItem ''ab.txt'' ''ab.txt'' 0 ''nothing here'') = Some 10"
    by code_simp
  have r2: "relevance ''ab'' (fileItem ''zz.txt'' ''zz.txt'' 3 ''ab and ab and ab'') = Some 3"
    by code_simp
  from searchFiles_sorted_by_relevance [of sampleWorld "''ab''" "''.''" defaultFileOptions]
  obtain rs where rs: "searchFiles sampleWorld ''ab'' ''.'' defaultFileOptions = Inr rs"
    and sorted: "sorted_wrt
         (\<lambda>a b. \<exists>ra rb. relevance ''ab'' a = Some ra \<and> relevance ''ab'' b = Some rb \<and> rb \<le> ra)
         rs"
    by blast
  from rs ev have "rs = [fileItem ''ab.txt'' ''ab.txt'' 0 ''nothing here'',
             fileItem ''zz.txt'' ''zz.txt'' 3 ''ab and ab and ab'']"
    by simp
  with rs sorted r1 r2 show ?thesis by blast
qed

section \<open>Properties of the rate limiter\<close>

lemma consumeCounter_allowed:
  assumes "blockedUntil c = None" "windowStart c \<le> now"
    "now < windowStart c + windowDuration cfg" "consumed c < capacity cfg"
  shows "consumeCounter cfg now c
    = (Allowed (capacity cfg - consumed c - 1), c\<lparr>consumed := consumed c + 1\<rparr>)"
  using assms by (simp add: consumeCounter_def resetWindow_def Let_def)

lemma Consume_present:
  "L (t, key) = Some c \<Longrightarrow>
   Consume L t key now
     = (fst (consumeCounter (tierConfig t) now c),
        L((t, key) \<mapsto> snd (consumeCounter (tierConfig t) now c)))"
  by (simp add: Consume_def Let_def)

lemma Consume_fresh:
  "L (t, key) = None \<Longrightarrow>
   Consume L t key now
     = Consume (L((t, key) \<mapsto> \<lparr>consumed = 0, windowStart = now, blockedUntil = None\<rparr>))
         t key now"
  by (simp add: Consume_def Let_def)

lemma consumeAll_append:
  "consumeAll L t key (xs @ ys)
     = (fst (consumeAll L t key xs) @ fst (consumeAll (snd (consumeAll L t key xs)) t key ys),
        snd (consumeAll (snd (consumeAll L t key xs)) t key ys))"
  by (induction xs arbitrary: L) (simp_all add: Let_def)

lemma consumeAll_allowed:
  assumes "L (t, key) = Some c" "blockedUntil c = None"
    "consumed c + length ts \<le> capacity (tierConfig t)"
    "\<forall>x\<in>set ts. windowStart c \<le> x \<and> x < windowStart c + windowDuration (tierConfig t)"
  shows "fst (consumeAll L t key ts)
      = map (\<lambda>i. Allowed (capacity (tierConfig t) - consumed c - 1 - i)) [0..<length ts]
    \<and> snd (consumeAll L t key ts) (t, key) = Some (c\<lparr>consumed := consumed c + length ts\<rparr>)"
  using assms
proof (induction ts arbitrary: L c)
  case Nil
  then show ?case by simp
next
  case (Cons x ts)
  let ?c' = "c\<lparr>consumed := consumed c + 1\<rparr>"
  let ?L' = "L((t, key) \<mapsto> ?c')"
  from Cons.prems have step: "Consume L t key x
      = (Allowed (capacity (tierConfig t) - consumed c - 1), ?L')"
    by (simp add: Consume_present consumeCounter_allowed)
  have ih: "fst (consumeAll ?L' t key ts)
      = map (\<lambda>i. Allowed (capacity (tierConfig t) - consumed ?c' - 1 - i)) [0..<length ts]
    \<and> snd (consumeAll ?L' t key ts) (t, key)
      = Some (?c'\<lparr>consumed := consumed ?c' + length ts\<rparr>)"
    using Cons.prems by (intro Cons.IH) simp_all
  have idx: "[0..<length (x # ts)] = 0 # map Suc [0..<length ts]"
    by (simp add: upt_conv_Cons map_Suc_upt del: upt_Suc)
  from ih show ?case
    unfolding idx consumeAll.simps step by (simp add: Let_def comp_def)
qed

lemma block_covers_window: "windowDuration (tierConfig t) \<le> blockDuration (tierConfig t)"
  by (cases t) simp_all

lemma window_positive: "0 < windowDuration (tierConfig t)"
  by (cases t) simp_all

lemma capacity_positive: "0 < capacity (tierConfig t)"
  by (cases t) simp_all

text \<open>
  C3. For every tier and key with no counter yet: when as many calls as the tier's
  capacity \<open>C\<close> are made at times \<open>t0 \<le> \<dots>\<close> and one more at \<open>tr\<close>, all within one window
  from the first call, the first \<open>C\<close> are allowed (the \<open>i\<close>-th leaving \<open>C - 1 - i\<close> points) and
  the next is rejected with \<open>retryAfter\<close> equal to the block duration; a call made once the
  block duration has elapsed from the rejecting call is allowed, and the counter then
  stands at 1 consumed. For the search tier the numbers are 30 allowed calls and a
  rejection with 120 seconds.
\<close>

theorem rate_limiter_window:
  assumes fresh: "L (t, key) = None"
    and calls: "length (t0 # ts) = capacity (tierConfig t)" "sorted (t0 # ts @ [tr])"
    and within: "tr < t0 + windowDuration (tierConfig t)"
    and later: "tr + blockDuration (tierConfig t) \<le> tn"
  shows "fst (consumeAll L t key (t0 # ts @ [tr, tn]))
      = map (\<lambda>i. Allowed (capacity (tierConfig t) - 1 - i)) [0..<capacity (tierConfig t)]
        @ [Rejected (blockDuration (tierConfig t)), Allowed (capacity (tierConfig t) - 1)]
    \<and> map_option consumed (snd (consumeAll L t key (t0 # ts @ [tr, tn])) (t, key)) = Some 1"
proof -
  let ?C = "capacity (tierConfig t)"
  let ?W = "windowDuration (tierConfig t)"
  let ?B = "blockDuration (tierConfig t)"
  let ?c0 = "\<lparr>consumed = 0, windowStart = t0, blockedUntil = None\<rparr>"
  let ?L0 = "L((t, key) \<mapsto> ?c0)"
  have in_window: "\<forall>x\<in>set (t0 # ts). t0 \<le> x \<and> x < t0 + ?W"
    using calls(2) within window_positive [of t] by (auto simp: sorted_append)
  have first: "consumeAll L t key (t0 # ts) = consumeAll ?L0 t key (t0 # ts)"
    using fresh by (simp add: Consume_fresh [of L t key t0])
  have run: "fst (consumeAll ?L0 t key (t0 # ts))
        = map (\<lambda>i. Allowed (?C - consumed ?c0 - 1 - i)) [0..<length (t0 # ts)]
      \<and> snd (consumeAll ?L0 t key (t0 # ts)) (t, key)
        = Some (?c0\<lparr>consumed := consumed ?c0 + length (t0 # ts)\<rparr>)"
    using calls(1) in_window by (intro consumeAll_allowed) simp_all
  define L1 where "L1 = snd (consumeAll L t key (t0 # ts))"
  define ds where "ds = fst (consumeAll L t key (t0 # ts))"
  let ?c1 = "\<lparr>consumed = ?C, windowStart = t0, blockedUntil = None\<rparr>"
  have full: "ds = map (\<lambda>i. Allowed (?C - 1 - i)) [0..<?C]"
    and at1: "L1 (t, key) = Some ?c1"
    using run unfolding L1_def ds_def first calls(1) by simp_all
  have t0_tr: "t0 \<le> tr" using calls(2) by (simp add: sorted_append)
  let ?c2 = "\<lparr>consumed = Suc ?C, windowStart = t0, blockedUntil = Some (tr + ?B)\<rparr>"
  let ?L2 = "L1((t, key) \<mapsto> ?c2)"
  have rejected: "Consume L1 t key tr = (Rejected ?B, ?L2)"
    using within t0_tr at1
    by (simp add: Consume_present [where c = ?c1] consumeCounter_def resetWindow_def Let_def)
  let ?c3 = "\<lparr>consumed = 1, windowStart = tn, blockedUntil = Some (tr + ?B)\<rparr>"
  have "t0 + ?W \<le> tn"
    using later t0_tr block_covers_window [of t] by linarith
  then have again: "Consume ?L2 t key tn = (Allowed (?C - 1), ?L2((t, key) \<mapsto> ?c3))"
    using later capacity_positive [of t]
    by (simp add: Consume_present [where c = ?c2] consumeCounter_def resetWindow_def Let_def)
  have tail: "consumeAll L1 t key [tr, tn]
      = ([Rejected ?B, Allowed (?C - 1)], ?L2((t, key) \<mapsto> ?c3))"
    by (simp add: rejected again Let_def)
  have "consumeAll L t key ((t0 # ts) @ [tr, tn])
      = (ds @ [Rejected ?B, Allowed (?C - 1)], ?L2((t, key) \<mapsto> ?c3))"
    unfolding consumeAll_append L1_def [symmetric] ds_def [symmetric] tail by simp
  then show ?thesis by (simp add: full)
qed

theorem rate_limiter_window_witness:
  "(Map.empty :: limiter) (Search, ''k1'') = None
   \<and> length (0 # sampleTimes) = capacity (tierConfig Search)
   \<and> sorted (0 # sampleTimes @ [10])
   \<and> (10 :: nat) < 0 + windowDuration (tierConfig Search)
   \<and> (10 :: nat) + blockDuration (tierConfig Search) \<le> 130
   \<and> fst (consumeAll Map.empty Search ''k1'' (0 # sampleTimes @ [10, 130]))
       = map (\<lambda>i. Allowed (30 - 1 - i)) [0..<30] @ [Rejected 120, Allowed 29]
   \<and> map_option consumed
         (snd (consumeAll Map.empty Search ''k1'' (0 # sampleTimes @ [10, 130]))
            (Search, ''k1'')) = Some 1"
proof -
  have h1: "(Map.empty :: limiter) (Search, ''k1'') = None" by simp
  have h2: "length (0 # sampleTimes) = capacity (tierConfig Search)"
    by (simp add: sampleTimes_def)
  have h3: "sorted (0 # sampleTimes @ [10])"
    by code_simp
  have h4: "(10 :: nat) < 0 + windowDuration (tierConfig Search)" by simp
  have h5: "(10 :: nat) + blockDuration (tierConfig Search) \<le> 130" by simp
  from rate_limiter_window [OF h1 h2 h3 h4 h5] h1 h2 h3 h4 h5 show ?thesis
    by simp
qed

section \<open>Properties of the local search\<close>

lemma filter_sorted_takeWhile:
  "sorted (map f xs) \<Longrightarrow> filter (\<lambda>x. f x \<le> (t :: real)) xs = takeWhile (\<lambda>x. f x \<le> t) xs"
proof (induction xs)
  case Nil
  show ?case by simp
next
  case (Cons x xs)
  show ?case
  proof (cases "f x \<le> t")
    case True
    with Cons show ?thesis by simp
  next
    case False
    with Cons.prems have "\<forall>y\<in>set xs. \<not> f y \<le> t" by fastforce
    with False show ?thesis by (simp add: filter_empty_conv)
  qed
qed

lemma fuseSearch_prefix:
  assumes "t1 \<le> t2"
  shows "\<exists>n. fuseSearch w t1 query corpus = take n (fuseSearch w t2 query corpus)"
proof -
  let ?S = "fuseScored w query corpus"
  let ?L2 = "fuseSearch w t2 query corpus"
  have "filter (\<lambda>p. snd p \<le> t1) ?S = filter (\<lambda>p. snd p \<le> t1) (filter (\<lambda>p. snd p \<le> t2) ?S)"
    using assms by (auto intro: filter_cong)
  then have "fuseSearch w t1 query corpus = filter (\<lambda>p. snd p \<le> t1) ?L2"
    by (simp add: fuseSearch_def filter_sort)
  also have "\<dots> = takeWhile (\<lambda>p. snd p \<le> t1) ?L2"
    by (rule filter_sorted_takeWhile) (simp add: fuseSearch_def)
  also have "\<dots> = take (length (takeWhile (\<lambda>p. snd p \<le> t1) ?L2)) ?L2"
    by (rule takeWhile_eq_take)
  finally show ?thesis by blast
qed

lemma set_slice0_take: "set (slice0 k (take n ys)) \<subseteq> set (slice0 k ys)"
proof (cases "k < 0")
  case True
  have "min (nat (int (min (length ys) n) + k)) n \<le> nat (int (length ys) + k)" by linarith
  then show ?thesis using True
    by (simp add: slice0_def set_take_subset_set_take)
next
  case False
  then show ?thesis
    by (simp add: slice0_def set_take_subset_set_take)
qed

text \<open>
  C6. Raising the threshold of the local search never removes a result: when the search
  returns results at a threshold \<open>t1\<close>, it returns results at every threshold \<open>t2 \<ge> t1\<close>
  (same query, corpus and other options), and every result returned at \<open>t1\<close> is among
  those returned at \<open>t2\<close>.
\<close>

theorem threshold_monotone:
  assumes "t1 \<le> t2"
    and "searchLocal w query (options\<lparr>threshold := Some t1\<rparr>) = Inr (Results r1)"
  shows "\<exists>r2. searchLocal w query (options\<lparr>threshold := Some t2\<rparr>) = Inr (Results r2)
    \<and> set r1 \<subseteq> set r2"
proof (cases "suggestionsOnly options = Some True")
  case True
  with assms(2) show ?thesis
    by (simp add: searchLocal_def Let_def split: option.splits)
next
  case notSuggestions: False
  show ?thesis
  proof (cases "case fuzzy options of None \<Rightarrow> True | Some b \<Rightarrow> b")
    case False
    with notSuggestions assms(2) show ?thesis
      by (simp add: searchLocal_def Let_def split: option.splits)
  next
    case True
    let ?limit = "case local_limit options of None \<Rightarrow> 20 | Some k \<Rightarrow> k"
    let ?g = "\<lambda>p :: entry \<times> real. localItem (fst p) (Some (snd p))"
    from True notSuggestions assms(2) obtain allData
      where db: "getDataFromDB w (category options) = Some allData"
        and r1: "r1 = slice0 ?limit (map ?g (fuseSearch w t1 query allData))"
      by (auto simp: searchLocal_def Let_def split: option.splits)
    let ?r2 = "slice0 ?limit (map ?g (fuseSearch w t2 query allData))"
    from True notSuggestions db
    have r2: "searchLocal w query (options\<lparr>threshold := Some t2\<rparr>) = Inr (Results ?r2)"
      by (simp add: searchLocal_def Let_def)
    from fuseSearch_prefix [OF assms(1), of w query allData] obtain n
      where "fuseSearch w t1 query allData = take n (fuseSearch w t2 query allData)" by blast
    then have "r1 = slice0 ?limit (take n (map ?g (fuseSearch w t2 query allData)))"
      by (simp add: r1 take_map)
    then have "set r1 \<subseteq> set ?r2"
      using set_slice0_take by metis
    with r2 show ?thesis by blast
  qed
qed

theorem threshold_monotone_witness:
  "(2 / 5 :: real) \<le> 3 / 5
   \<and> searchLocal sampleWorld ''needle'' (defaultLocalOptions\<lparr>threshold := Some (2 / 5)\<rparr>)
       = Inr (Results [sampleRecord ''Needlework'' ''sewing'' 0,
                       sampleRecord ''Alpha'' ''needle in a haystack'' (3 / 10)])
   \<and> (\<exists>r2. searchLocal sampleWorld ''needle'' (defaultLocalOptions\<lparr>threshold := Some (3 / 5)\<rparr>)
              = Inr (Results r2)
         \<and> set [sampleRecord ''Needlework'' ''sewing'' 0,
                sampleRecord ''Alpha'' ''needle in a haystack'' (3 / 10)] \<subseteq> set r2)"
proof -
  have le: "(2 / 5 :: real) \<le> 3 / 5" by simp
  have r1: "searchLocal sampleWorld ''needle'' (defaultLocalOptions\<lparr>threshold := Some (2 / 5)\<rparr>)
       = Inr (Results [sampleRecord ''Needlework'' ''sewing'' 0,
                       sampleRecord ''Alpha'' ''needle in a haystack'' (3 / 10)])"
    by code_simp
  from threshold_monotone [OF le r1] le r1 show ?thesis by blast
qed



subsection \<open>The pattern match of the record store\<close>






lemma take_all_set: "length xs \<le> n \<Longrightarrow> set (take n xs) = set xs"
  by simp




section \<open>Properties of the suggestions route\<close>

text \<open>
  C8. For a request without \<open>q\<close> and for every \<open>q\<close> shorter than 2 characters the handler
  answers with the empty suggestions list and makes no call into the search service. For
  every \<open>q\<close> of 2 or more characters it makes exactly one call, \<open>searchLocal\<close> in
  suggestions-only mode with \<open>q\<close> as the query, and answers with what that call returns
  (or with the status 500 when it fails).
\<close>

theorem suggestions_route:
  "(q = None \<or> (\<exists>s. q = Some s \<and> length s < 2)
      \<longrightarrow> suggestionsRoute w q = (SuggestionsJson (Suggestions []), []))
   \<and> (\<forall>s. q = Some s \<and> 2 \<le> length s
      \<longrightarrow> snd (suggestionsRoute w q) = [SearchLocalCall s suggestionOptions]
        \<and> suggestionsOnly suggestionOptions = Some True
        \<and> (\<forall>r. searchLocal w s suggestionOptions = Inr r
              \<longrightarrow> fst (suggestionsRoute w q) = SuggestionsJson r)
        \<and> (\<forall>e. searchLocal w s suggestionOptions = Inl e
              \<longrightarrow> (\<exists>msg. fst (suggestionsRoute w q) = ServerError msg)))"
  by (auto simp: suggestionsRoute_def suggestionOptions_def split: option.splits sum.splits)

theorem suggestions_route_witness:
  "suggestionsRoute sampleWorld None = (SuggestionsJson (Suggestions []), [])
   \<and> length ''n'' < 2
   \<and> suggestionsRoute sampleWorld (Some ''n'') = (SuggestionsJson (Suggestions []), [])
   \<and> 2 \<le> length ''needle''
   \<and> searchLocal sampleWorld ''needle'' suggestionOptions
       = Inr (Suggestions [''Needlework'', ''Alpha''])
   \<and> suggestionsRoute sampleWorld (Some ''needle'')
       = (SuggestionsJson (Suggestions [''Needlework'', ''Alpha'']),
          [SearchLocalCall ''needle'' suggestionOptions])"
proof -
  have ev: "searchLocal sampleWorld ''needle'' suggestionOptions
      = Inr (Suggestions [''Needlework'', ''Alpha''])"
    by code_simp
  from suggestions_route [of None sampleWorld]
  have a: "suggestionsRoute sampleWorld None = (SuggestionsJson (Suggestions []), [])"
    by simp
  from suggestions_route [of "Some ''n''" sampleWorld]
  have b: "suggestionsRoute sampleWorld (Some ''n'') = (SuggestionsJson (Suggestions []), [])"
    by simp
  from suggestions_route [of "Some ''needle''" sampleWorld] ev
  have "snd (suggestionsRoute sampleWorld (Some ''needle''))
        = [SearchLocalCall ''needle'' suggestionOptions]
      \<and> fst (suggestionsRoute sampleWorld (Some ''needle''))
        = SuggestionsJson (Suggestions [''Needlework'', ''Alpha''])"
    by simp
  then have c: "suggestionsRoute sampleWorld (Some ''needle'')
       = (SuggestionsJson (Suggestions [''Needlework'', ''Alpha'']),
          [SearchLocalCall ''needle'' suggestionOptions])"
    by (simp add: prod_eq_iff)
  from a b c ev show ?thesis by simp
qed

end
